theory Spec2Isabelle
  imports Main "HOL-Library.List_Lexorder" "HOL-Library.Multiset"
begin

section \<open>Python values\<close>

text \<open>
  The program is a Python script (\<^verbatim>\<open>mailtm-cli-py.py\<close>). Its helper and
  rendering functions work on values decoded from JSON, read with \<^verbatim>\<open>dict.get\<close>,
  tested for truthiness and for their type with \<^verbatim>\<open>isinstance\<close>.

  A Python \<^verbatim>\<open>str\<close> is a sequence of Unicode code points and \<^verbatim>\<open>len\<close> counts
  code points, so a string is a list of natural numbers here. \<open>lit\<close> turns an ASCII
  literal of the source into such a list.
\<close>

type_synonym pystr = "nat list"

definition lit :: "string \<Rightarrow> pystr" where
  "lit s = map of_char s"

text \<open>
  A decoded JSON value. Numbers are the integers (\<^verbatim>\<open>int\<close> is unbounded in Python);
  floating point numbers are outside this model. A \<^verbatim>\<open>dict\<close> is an association
  list in insertion order whose keys are distinct, as the keys of a decoded object are;
  a lookup reads the first entry of a key.
\<close>

datatype json =
    JNull
  | JBool bool
  | JInt int
  | JStr pystr
  | JList "json list"
  | JDict "(pystr \<times> json) list"

text \<open>The exceptions the modelled functions can raise.\<close>

datatype error = TypeError | AttributeError | KeyError

text \<open>
  What the functions use of Python's library and cannot be written down from the
  repository is a parameter of the model, so that every theorem holds whatever these
  tables are:
  \<^item> \<open>str_of\<close>: the text \<^verbatim>\<open>str(v)\<close> of a value that is not a \<^verbatim>\<open>str\<close>, as an
    f-string interpolates it (\<^verbatim>\<open>None\<close>, \<^verbatim>\<open>True\<close>, a number, the \<^verbatim>\<open>repr\<close> of a
    list or dict);
  \<^item> \<open>charref_sub\<close>: the replacement of character references that
    \<^verbatim>\<open>html.unescape\<close> makes on a string that holds an ampersand (it depends on
    the table of HTML5 entity names);
  \<^item> \<open>decimal_beyond_ascii\<close>: the code points above 127 that \<^verbatim>\<open>\d\<close> matches
    (the Unicode decimal digits, which depend on the Unicode version).
\<close>

record pylib =
  str_of :: "json \<Rightarrow> pystr"
  charref_sub :: "pystr \<Rightarrow> pystr"
  decimal_beyond_ascii :: "nat \<Rightarrow> bool"

text \<open>Truthiness (\<^verbatim>\<open>bool(v)\<close>), \<^verbatim>\<open>a or b\<close>, and the type tests.\<close>

fun truthy :: "json \<Rightarrow> bool" where
  "truthy JNull = False"
| "truthy (JBool b) = b"
| "truthy (JInt n) = (n \<noteq> 0)"
| "truthy (JStr s) = (s \<noteq> [])"
| "truthy (JList xs) = (xs \<noteq> [])"
| "truthy (JDict d) = (d \<noteq> [])"

definition py_or :: "json \<Rightarrow> json \<Rightarrow> json" where
  "py_or a b = (if truthy a then a else b)"

fun is_str :: "json \<Rightarrow> bool" where
  "is_str (JStr s) = True"
| "is_str _ = False"

fun is_list :: "json \<Rightarrow> bool" where
  "is_list (JList xs) = True"
| "is_list _ = False"

fun is_dict :: "json \<Rightarrow> bool" where
  "is_dict (JDict d) = True"
| "is_dict _ = False"

text \<open>\<^verbatim>\<open>d.get(k)\<close> and \<^verbatim>\<open>d.get(k, default)\<close>.\<close>

definition dict_get_default :: "(pystr \<times> json) list \<Rightarrow> pystr \<Rightarrow> json \<Rightarrow> json" where
  "dict_get_default d k dflt = (case map_of d k of None \<Rightarrow> dflt | Some v \<Rightarrow> v)"

definition dict_get :: "(pystr \<times> json) list \<Rightarrow> pystr \<Rightarrow> json" where
  "dict_get d k = dict_get_default d k JNull"

text \<open>\<^verbatim>\<open>str(v)\<close>, and \<^verbatim>\<open>for x in v\<close>: a list gives its elements, a string its
  characters, a dict its keys; the other values are not iterable.\<close>

definition py_str :: "pylib \<Rightarrow> json \<Rightarrow> pystr" where
  "py_str L v = (case v of JStr s \<Rightarrow> s | _ \<Rightarrow> str_of L v)"

fun py_iter :: "json \<Rightarrow> error + json list" where
  "py_iter (JList xs) = Inr xs"
| "py_iter (JStr s) = Inr (map (\<lambda>c. JStr [c]) s)"
| "py_iter (JDict d) = Inr (map (\<lambda>(k, v). JStr k) d)"
| "py_iter _ = Inl TypeError"

text \<open>\<^verbatim>\<open>sep.join(parts)\<close> raises \<^verbatim>\<open>TypeError\<close> on an item that is not a string.\<close>

fun join_strs :: "pystr \<Rightarrow> pystr list \<Rightarrow> pystr" where
  "join_strs sep [] = []"
| "join_strs sep [s] = s"
| "join_strs sep (s # t # ts) = s @ sep @ join_strs sep (t # ts)"

fun strs_of :: "json list \<Rightarrow> pystr list option" where
  "strs_of [] = Some []"
| "strs_of (JStr s # vs) = map_option (Cons s) (strs_of vs)"
| "strs_of (v # vs) = None"

definition py_join :: "pystr \<Rightarrow> json list \<Rightarrow> error + pystr" where
  "py_join sep parts = (case strs_of parts of None \<Rightarrow> Inl TypeError | Some ss \<Rightarrow> Inr (join_strs sep ss))"

section \<open>The collection normalizer\<close>

text \<open>
  \<^verbatim>\<open>
  def _normalize_collection(coll: Any) -> Dict[str, Any]:
      if isinstance(coll, list):
          return {"hydra:member": coll, "hydra:totalItems": len(coll)}
      return coll if isinstance(coll, dict) else {"hydra:member": [], "hydra:totalItems": 0}
  \<close>
\<close>

definition normalize_collection :: "json \<Rightarrow> json" where
  "normalize_collection coll =
     (case coll of
        JList xs \<Rightarrow> JDict [(lit ''hydra:member'', JList xs),
                            (lit ''hydra:totalItems'', JInt (int (length xs)))]
      | JDict d \<Rightarrow> JDict d
      | _ \<Rightarrow> JDict [(lit ''hydra:member'', JList []), (lit ''hydra:totalItems'', JInt 0)])"

text \<open>A valid envelope: a mapping whose item field is a sequence and whose total-count
  field is a non-negative integer.\<close>

definition valid_envelope :: "json \<Rightarrow> bool" where
  "valid_envelope v =
     (case v of
        JDict d \<Rightarrow>
          (case map_of d (lit ''hydra:member'') of
             Some (JList xs) \<Rightarrow>
               (case map_of d (lit ''hydra:totalItems'') of
                  Some (JInt n) \<Rightarrow> 0 \<le> n
                | _ \<Rightarrow> False)
           | _ \<Rightarrow> False)
      | _ \<Rightarrow> False)"

section \<open>The address formatter\<close>

text \<open>
  \<^verbatim>\<open>
  def _format_address(addr: Any) -> str:
      if isinstance(addr, dict):
          name = addr.get("name") or ""
          email = addr.get("address") or ""
          if name and email:
              return f"{name} <{email}>"
          return email or name
      if isinstance(addr, str):
          return addr
      return ""
  \<close>
  The fields are not checked to be strings, so \<^verbatim>\<open>email or name\<close> can be any truthy
  value: the result is a Python value.
\<close>

definition format_address :: "pylib \<Rightarrow> json \<Rightarrow> json" where
  "format_address L addr =
     (case addr of
        JDict d \<Rightarrow>
          (let name = py_or (dict_get d (lit ''name'')) (JStr []);
               email = py_or (dict_get d (lit ''address'')) (JStr [])
           in if truthy name \<and> truthy email
              then JStr (py_str L name @ lit '' <'' @ py_str L email @ lit ''>'')
              else py_or email name)
      | JStr s \<Rightarrow> JStr s
      | _ \<Rightarrow> JStr [])"

text \<open>
  \<^verbatim>\<open>
  def _format_address_list(addrs: Any) -> str:
      if addrs is None:
          return ""
      if isinstance(addrs, dict):
          addrs = [addrs]
      if isinstance(addrs, str):
          addrs = [addrs]
      if isinstance(addrs, list):
          parts = []
          for a in addrs:
              s = _format_address(a)
              if s:
                  parts.append(s)
          return ", ".join(parts)
      return ""
  \<close>
\<close>

definition format_parts :: "pylib \<Rightarrow> json list \<Rightarrow> json list" where
  "format_parts L addrs = filter truthy (map (format_address L) addrs)"

definition format_address_list :: "pylib \<Rightarrow> json \<Rightarrow> error + pystr" where
  "format_address_list L addrs =
     (case addrs of
        JNull \<Rightarrow> Inr []
      | JDict d \<Rightarrow> py_join (lit '', '') (format_parts L [JDict d])
      | JStr s \<Rightarrow> py_join (lit '', '') (format_parts L [JStr s])
      | JList xs \<Rightarrow> py_join (lit '', '') (format_parts L xs)
      | _ \<Rightarrow> Inr [])"

text \<open>An address of the expected shape: in a mapping, the name and the address are each a
  string, or falsy, or missing. Every other value is formatted to a string anyway.\<close>

definition str_or_falsy :: "json \<Rightarrow> bool" where
  "str_or_falsy v = (is_str v \<or> \<not> truthy v)"

definition address_like :: "json \<Rightarrow> bool" where
  "address_like x =
     (case x of
        JDict d \<Rightarrow>
          str_or_falsy (dict_get d (lit ''name'')) \<and> str_or_falsy (dict_get d (lit ''address''))
      | _ \<Rightarrow> True)"

section \<open>Ordering by creation time\<close>

text \<open>
  \<^verbatim>\<open>
  def _sort_desc_by_created(items: List[Dict[str, Any]]) -> List[Dict[str, Any]]:
      return sorted(items, key=lambda m: (m.get("createdAt") or ""), reverse=True)
  \<close>
  The key function calls \<^verbatim>\<open>m.get\<close>, which only a dict has, and
  \<^verbatim>\<open>sorted\<close> computes the key of every item before it compares any two.
\<close>

definition sort_key :: "json \<Rightarrow> error + json" where
  "sort_key m =
     (case m of
        JDict d \<Rightarrow> Inr (py_or (dict_get d (lit ''createdAt'')) (JStr []))
      | _ \<Rightarrow> Inl AttributeError)"

fun keyed :: "json list \<Rightarrow> error + (json \<times> json) list" where
  "keyed [] = Inr []"
| "keyed (m # ms) =
     (case sort_key m of
        Inl e \<Rightarrow> Inl e
      | Inr k \<Rightarrow> (case keyed ms of Inl e \<Rightarrow> Inl e | Inr kms \<Rightarrow> Inr ((k, m) # kms)))"

text \<open>
  Python's \<^verbatim>\<open>==\<close> and \<^verbatim>\<open><\<close> on decoded values. \<^verbatim>\<open>bool\<close> is a subclass of
  \<^verbatim>\<open>int\<close> (\<^verbatim>\<open>True == 1\<close>); strings compare by code points, lists
  lexicographically (the first pair of elements that are not equal decides); every other
  pairing has no order and \<^verbatim>\<open><\<close> raises \<^verbatim>\<open>TypeError\<close>.
\<close>

fun py_eq :: "json \<Rightarrow> json \<Rightarrow> bool" where
  "py_eq JNull JNull = True"
| "py_eq (JBool a) (JBool b) = (a = b)"
| "py_eq (JBool a) (JInt b) = (of_bool a = b)"
| "py_eq (JInt a) (JBool b) = (a = of_bool b)"
| "py_eq (JInt a) (JInt b) = (a = b)"
| "py_eq (JStr a) (JStr b) = (a = b)"
| "py_eq (JList xs) (JList ys) = list_all2 py_eq xs ys"
| "py_eq (JDict a) (JDict b) =
     (length a = length b \<and>
      list_all (\<lambda>(k, v). case map_of b k of None \<Rightarrow> False | Some w \<Rightarrow> py_eq v w) a)"
| "py_eq _ _ = False"

fun py_lt :: "json \<Rightarrow> json \<Rightarrow> error + bool" where
  "py_lt (JStr a) (JStr b) = Inr (a < b)"
| "py_lt (JInt a) (JInt b) = Inr (a < b)"
| "py_lt (JInt a) (JBool b) = Inr (a < of_bool b)"
| "py_lt (JBool a) (JInt b) = Inr (of_bool a < b)"
| "py_lt (JBool a) (JBool b) = Inr (\<not> a \<and> b)"
| "py_lt (JList []) (JList ys) = Inr (ys \<noteq> [])"
| "py_lt (JList (x # xs)) (JList []) = Inr False"
| "py_lt (JList (x # xs)) (JList (y # ys)) =
     (if py_eq x y then py_lt (JList xs) (JList ys) else py_lt x y)"
| "py_lt _ _ = Inl TypeError"

text \<open>
  \<^verbatim>\<open>sorted(..., reverse=True)\<close> is stable: it returns the keys in non-increasing
  order and keeps the input order of items whose keys are equal. It uses only
  \<^verbatim>\<open><\<close> between keys, and an exception of a comparison ends the sort. The model is
  the insertion sort with these properties: the items are inserted from the last to the
  first, each in front of the first item whose key is not greater.

  When every two keys have an order, every stable sort returns the same list. When some
  two keys have none, the only exception is \<^verbatim>\<open>TypeError\<close>; it is raised by every
  sort when the keys are two, or are of kinds without an order between them (a string
  and a number, a mapping and anything). For keys that are lists of which only some pairs
  have an order, whether the exception is raised depends on the pairs the algorithm
  compares, and the model follows its own insertions.
\<close>

fun insert_desc :: "json \<times> json \<Rightarrow> (json \<times> json) list \<Rightarrow> error + (json \<times> json) list" where
  "insert_desc x [] = Inr [x]"
| "insert_desc x (y # ys) =
     (case py_lt (fst x) (fst y) of
        Inl e \<Rightarrow> Inl e
      | Inr True \<Rightarrow> (case insert_desc x ys of Inl e \<Rightarrow> Inl e | Inr zs \<Rightarrow> Inr (y # zs))
      | Inr False \<Rightarrow> Inr (x # y # ys))"

fun sorted_desc :: "(json \<times> json) list \<Rightarrow> error + (json \<times> json) list" where
  "sorted_desc [] = Inr []"
| "sorted_desc (x # xs) =
     (case sorted_desc xs of Inl e \<Rightarrow> Inl e | Inr ys \<Rightarrow> insert_desc x ys)"

definition sort_desc_by_created :: "json \<Rightarrow> error + json list" where
  "sort_desc_by_created items =
     (case py_iter items of
        Inl e \<Rightarrow> Inl e
      | Inr ms \<Rightarrow>
          (case keyed ms of
             Inl e \<Rightarrow> Inl e
           | Inr kms \<Rightarrow>
               (case sorted_desc kms of Inl e \<Rightarrow> Inl e | Inr srt \<Rightarrow> Inr (map snd srt))))"

text \<open>The key of an item of the expected shape: a mapping whose \<^verbatim>\<open>createdAt\<close> is a
  string, or falsy, or missing (the key is then the empty string).\<close>

definition str_keyed :: "json \<Rightarrow> bool" where
  "str_keyed m =
     (case m of
        JDict d \<Rightarrow> is_str (py_or (dict_get d (lit ''createdAt'')) (JStr []))
      | _ \<Rightarrow> False)"

definition created_key :: "json \<Rightarrow> pystr" where
  "created_key m =
     (case m of
        JDict d \<Rightarrow>
          (case py_or (dict_get d (lit ''createdAt'')) (JStr []) of JStr s \<Rightarrow> s | _ \<Rightarrow> [])
      | _ \<Rightarrow> [])"

definition desc_sorted :: "json list \<Rightarrow> bool" where
  "desc_sorted ms = sorted_wrt (\<lambda>a b. created_key b \<le> created_key a) ms"

text \<open>
  For items of the expected shape the sort is the stable insertion by the string key,
  written here without the error cases, to compare with \<open>sorted_desc\<close>.
\<close>

fun place_desc :: "json \<Rightarrow> json list \<Rightarrow> json list" where
  "place_desc x [] = [x]"
| "place_desc x (y # ys) =
     (if created_key x < created_key y then y # place_desc x ys else x # y # ys)"

fun stable_desc :: "json list \<Rightarrow> json list" where
  "stable_desc [] = []"
| "stable_desc (x # xs) = place_desc x (stable_desc xs)"

definition with_key :: "json \<Rightarrow> json \<times> json" where
  "with_key m = (JStr (created_key m), m)"

text \<open>The example of the specification: two dated summaries and one without a date.\<close>

definition ex_jan :: json where
  "ex_jan = JDict [(lit ''id'', JStr (lit ''m1'')),
                   (lit ''createdAt'', JStr (lit ''2024-01-01T00:00:00Z''))]"

definition ex_mar :: json where
  "ex_mar = JDict [(lit ''id'', JStr (lit ''m2'')),
                   (lit ''createdAt'', JStr (lit ''2024-03-01T00:00:00Z''))]"

definition ex_missing :: json where
  "ex_missing = JDict [(lit ''id'', JStr (lit ''m3''))]"

section \<open>Regular expressions\<close>

text \<open>
  The HTML simplifier is a chain of \<^verbatim>\<open>re.sub\<close> calls. A pattern is a term of
  \<open>regex\<close>, with the constructs the source's patterns use: a literal character, a
  literal under the flag \<^verbatim>\<open>(?i)\<close>, the dot under the flag \<^verbatim>\<open>(?s)\<close> (it matches
  every character), a character class, sequence, alternation, the greedy star, the lazy
  star, the capturing group 1 and the backreference \<^verbatim>\<open>\1\<close> under \<^verbatim>\<open>(?i)\<close>.
\<close>

datatype regex =
    Eps
  | Chr nat
  | ChrI nat
  | AnyChar
  | Cls "nat \<Rightarrow> bool"
  | Seq regex regex
  | Alt regex regex
  | Star regex
  | LazyStar regex
  | Group regex
  | BackrefI

text \<open>
  Case-insensitive matching compares lower-cased code points. For a target \<open>t\<close> that
  is an ASCII lower-case letter, the dotless i (305) or the long s (383),
  \<open>sre_lower_is t c\<close> says that the lower case of \<open>c\<close> is \<open>t\<close>: besides the
  letter and its ASCII capital, the dotted capital I (304) lowers to \<^verbatim>\<open>i\<close> and the
  Kelvin sign (8490) to \<^verbatim>\<open>k\<close>. A literal \<^verbatim>\<open>i\<close> also matches the dotless i and a
  literal \<^verbatim>\<open>s\<close> the long s, which have the same upper case.
\<close>

definition sre_lower_is :: "nat \<Rightarrow> nat \<Rightarrow> bool" where
  "sre_lower_is t c =
     (c = t \<or> (97 \<le> t \<and> t \<le> 122 \<and> c + 32 = t) \<or> (t = 105 \<and> c = 304) \<or> (t = 107 \<and> c = 8490))"

definition chr_ignorecase :: "nat \<Rightarrow> nat \<Rightarrow> bool" where
  "chr_ignorecase p c = (sre_lower_is p c \<or> (p = 105 \<and> c = 305) \<or> (p = 115 \<and> c = 383))"

text \<open>The lower case of a character that a case-insensitive ASCII letter has matched.\<close>

definition sre_lower_matched :: "nat \<Rightarrow> nat" where
  "sre_lower_matched a = (if 65 \<le> a \<and> a \<le> 90 then a + 32 else if a = 304 then 105 else a)"

fun backref_ignorecase :: "pystr \<Rightarrow> pystr \<Rightarrow> pystr option" where
  "backref_ignorecase [] s = Some s"
| "backref_ignorecase (a # as) [] = None"
| "backref_ignorecase (a # as) (c # cs) =
     (if sre_lower_is (sre_lower_matched a) c then backref_ignorecase as cs else None)"

text \<open>
  \<open>matches r g s\<close> lists the ways \<open>r\<close> matches a prefix of \<open>s\<close>, each as the
  text captured by group 1 and the rest of \<open>s\<close>, in the order in which the
  backtracking matcher tries them: the left alternative first, the longest repetition
  first for a greedy star and the shortest first for a lazy one. The first entry is the
  match that \<^verbatim>\<open>re\<close> finds at this position.
\<close>

function matches :: "regex \<Rightarrow> pystr option \<Rightarrow> pystr \<Rightarrow> (pystr option \<times> pystr) list" where
  "matches Eps g s = [(g, s)]"
| "matches (Chr p) g s = (case s of [] \<Rightarrow> [] | c # cs \<Rightarrow> if c = p then [(g, cs)] else [])"
| "matches (ChrI p) g s =
     (case s of [] \<Rightarrow> [] | c # cs \<Rightarrow> if chr_ignorecase p c then [(g, cs)] else [])"
| "matches AnyChar g s = (case s of [] \<Rightarrow> [] | c # cs \<Rightarrow> [(g, cs)])"
| "matches (Cls P) g s = (case s of [] \<Rightarrow> [] | c # cs \<Rightarrow> if P c then [(g, cs)] else [])"
| "matches (Seq r1 r2) g s = concat (map (\<lambda>(g', s'). matches r2 g' s') (matches r1 g s))"
| "matches (Alt r1 r2) g s = matches r1 g s @ matches r2 g s"
| "matches (Star r) g s =
     concat (map (\<lambda>(g', s'). if length s' < length s then matches (Star r) g' s' else [])
                 (matches r g s)) @ [(g, s)]"
| "matches (LazyStar r) g s =
     (g, s) # concat (map (\<lambda>(g', s'). if length s' < length s then matches (LazyStar r) g' s' else [])
                          (matches r g s))"
| "matches (Group r) g s =
     map (\<lambda>(g', s'). (Some (take (length s - length s') s), s')) (matches r g s)"
| "matches BackrefI g s =
     (case g of
        None \<Rightarrow> []
      | Some w \<Rightarrow> (case backref_ignorecase w s of None \<Rightarrow> [] | Some s' \<Rightarrow> [(g, s')]))"
  by pat_completeness auto
termination
  by (relation "inv_image (less_than <*lex*> less_than) (\<lambda>(r, g, s). (size r, length s))") auto

text \<open>
  \<^verbatim>\<open>re.sub(pattern, repl, string)\<close> replaces the leftmost matches that do not
  overlap: where the pattern matches, the replacement is written and the scan goes on
  behind the match; elsewhere the character is copied. (A match of the empty string
  writes the replacement and copies the character; no pattern of the source has one.)
\<close>

fun re_sub :: "regex \<Rightarrow> pystr \<Rightarrow> pystr \<Rightarrow> pystr" where
  "re_sub r repl [] = (case matches r None [] of [] \<Rightarrow> [] | m # ms \<Rightarrow> repl)"
| "re_sub r repl (c # cs) =
     (case matches r None (c # cs) of
        [] \<Rightarrow> c # re_sub r repl cs
      | (g, rest) # ms \<Rightarrow>
          if length rest < Suc (length cs) then repl @ re_sub r repl rest
          else repl @ c # re_sub r repl cs)"

definition seqs :: "regex list \<Rightarrow> regex" where
  "seqs rs = foldr Seq rs Eps"

definition alts :: "regex list \<Rightarrow> regex" where
  "alts rs = foldr Alt rs (Cls (\<lambda>c. False))"

definition Opt :: "regex \<Rightarrow> regex" where
  "Opt r = Alt r Eps"

definition Plus :: "regex \<Rightarrow> regex" where
  "Plus r = Seq r (Star r)"

definition word_i :: "string \<Rightarrow> regex" where
  "word_i w = seqs (map (\<lambda>c. ChrI (of_char c)) w)"

text \<open>\<^verbatim>\<open>str.isspace\<close>, which is also the class \<^verbatim>\<open>\s\<close> and what \<^verbatim>\<open>str.strip()\<close>
  removes; and the class \<^verbatim>\<open>\d\<close>.\<close>

definition py_isspace :: "nat \<Rightarrow> bool" where
  "py_isspace c =
     ((9 \<le> c \<and> c \<le> 13) \<or> (28 \<le> c \<and> c \<le> 32) \<or> c = 133 \<or> c = 160 \<or> c = 5760 \<or>
      (8192 \<le> c \<and> c \<le> 8202) \<or> c = 8232 \<or> c = 8233 \<or> c = 8239 \<or> c = 8287 \<or> c = 12288)"

definition py_isdecimal :: "pylib \<Rightarrow> nat \<Rightarrow> bool" where
  "py_isdecimal L c = ((48 \<le> c \<and> c \<le> 57) \<or> (127 < c \<and> decimal_beyond_ascii L c))"

definition py_strip :: "pystr \<Rightarrow> pystr" where
  "py_strip s = rev (dropWhile py_isspace (rev (dropWhile py_isspace s)))"

section \<open>The HTML simplifier\<close>

text \<open>
  \<^verbatim>\<open>
  def _simplify_html(html_parts):
      if not html_parts:
          return ""
      html = "\n\n".join([part for part in html_parts if isinstance(part, str)])
      html = unescape(html)
      html = re.sub(r"(?is)<(script|style).*?>.*?</\1>", "", html)
      html = re.sub(r"(?i)<br\s*/?>", "\n", html)
      html = re.sub(r"(?i)</(p|div|h\d|li|tr|table|ul|ol)>", "\n", html)
      html = re.sub(r"(?s)<.*?>", "", html)
      html = re.sub(r"[ \t]+\n", "\n", html)
      html = re.sub(r"\n{3,}", "\n\n", html)
      return html.strip()
  \<close>
  The six patterns, in the order of the source (60 is \<^verbatim>\<open><\<close>, 62 is \<^verbatim>\<open>>\<close>, 47 is
  \<^verbatim>\<open>/\<close>, 10 is the newline, 32 the space and 9 the tab):
\<close>

definition rx_script_style :: regex where
  "rx_script_style =
     seqs [Chr 60, Group (Alt (word_i ''script'') (word_i ''style'')), LazyStar AnyChar, Chr 62,
           LazyStar AnyChar, Chr 60, Chr 47, BackrefI, Chr 62]"

definition rx_br :: regex where
  "rx_br = seqs [Chr 60, ChrI 98, ChrI 114, Star (Cls py_isspace), Opt (Chr 47), Chr 62]"

definition rx_block_close :: "pylib \<Rightarrow> regex" where
  "rx_block_close L =
     seqs [Chr 60, Chr 47,
           Group (alts [word_i ''p'', word_i ''div'', Seq (ChrI 104) (Cls (py_isdecimal L)),
                        word_i ''li'', word_i ''tr'', word_i ''table'', word_i ''ul'',
                        word_i ''ol'']),
           Chr 62]"

definition rx_tag :: regex where
  "rx_tag = seqs [Chr 60, LazyStar AnyChar, Chr 62]"

definition rx_trailing_blanks :: regex where
  "rx_trailing_blanks = seqs [Plus (Cls (\<lambda>c. c = 32 \<or> c = 9)), Chr 10]"

definition rx_newlines :: regex where
  "rx_newlines = seqs [Chr 10, Chr 10, Chr 10, Star (Chr 10)]"

text \<open>\<^verbatim>\<open>html.unescape\<close> returns a string without an ampersand as it is.\<close>

definition py_unescape :: "pylib \<Rightarrow> pystr \<Rightarrow> pystr" where
  "py_unescape L s = (if 38 \<in> set s then charref_sub L s else s)"

fun str_parts :: "json list \<Rightarrow> pystr list" where
  "str_parts [] = []"
| "str_parts (JStr s # vs) = s # str_parts vs"
| "str_parts (v # vs) = str_parts vs"

definition simplify_text :: "pylib \<Rightarrow> pystr \<Rightarrow> pystr" where
  "simplify_text L html0 =
     (let html = py_unescape L html0;
          html = re_sub rx_script_style [] html;
          html = re_sub rx_br [10] html;
          html = re_sub (rx_block_close L) [10] html;
          html = re_sub rx_tag [] html;
          html = re_sub rx_trailing_blanks [10] html;
          html = re_sub rx_newlines [10, 10] html
      in py_strip html)"

definition simplify_html :: "pylib \<Rightarrow> json \<Rightarrow> error + pystr" where
  "simplify_html L html_parts =
     (if \<not> truthy html_parts then Inr []
      else (case py_iter html_parts of
              Inl e \<Rightarrow> Inl e
            | Inr parts \<Rightarrow> Inr (simplify_text L (join_strs [10, 10] (str_parts parts)))))"

text \<open>
  What the last two substitutions do, written without the patterns: a run of spaces and
  tabs that stands directly before a newline is dropped, and a run of three or more
  newlines becomes two newlines.
\<close>

definition is_blank :: "nat \<Rightarrow> bool" where
  "is_blank c = (c = 32 \<or> c = 9)"

function drop_blanks_before_newline :: "pystr \<Rightarrow> pystr" where
  "drop_blanks_before_newline [] = []"
| "drop_blanks_before_newline (c # cs) =
     (if is_blank c \<and> take 1 (dropWhile is_blank cs) = [10]
      then drop_blanks_before_newline (dropWhile is_blank cs)
      else c # drop_blanks_before_newline cs)"
  by pat_completeness auto
termination
  by (relation "measure length") (auto simp: le_imp_less_Suc length_dropWhile_le)

function squeeze_newlines :: "pystr \<Rightarrow> pystr" where
  "squeeze_newlines [] = []"
| "squeeze_newlines (c # cs) =
     (if c = 10 \<and> take 2 cs = [10, 10]
      then [10, 10] @ squeeze_newlines (dropWhile (\<lambda>x. x = 10) cs)
      else c # squeeze_newlines cs)"
  by pat_completeness auto
termination
  by (relation "measure length") (auto simp: le_imp_less_Suc length_dropWhile_le)

section \<open>The renderers\<close>

text \<open>
  The renderers print line by line, and an exception ends a renderer after the lines it
  has printed. What a renderer does is the list of the strings it has printed (one per
  call of \<^verbatim>\<open>print\<close>) and the exception that ended it, if any.
\<close>

type_synonym printed = "pystr list \<times> error option"

definition says :: "pystr list \<Rightarrow> printed" where
  "says ls = (ls, None)"

definition raises :: "error \<Rightarrow> printed" where
  "raises e = ([], Some e)"

definition andthen :: "printed \<Rightarrow> printed \<Rightarrow> printed" where
  "andthen p q = (case snd p of Some e \<Rightarrow> p | None \<Rightarrow> (fst p @ fst q, snd q))"

text \<open>\<^verbatim>\<open>s.replace(old, new)\<close>: the occurrences of \<open>old\<close> from the left that do not
  overlap; an empty \<open>old\<close> matches before every character and at the end.\<close>

fun replace_from :: "pystr \<Rightarrow> pystr \<Rightarrow> pystr \<Rightarrow> pystr" where
  "replace_from old new [] = []"
| "replace_from old new (c # cs) =
     (if old \<noteq> [] \<and> take (length old) (c # cs) = old
      then new @ replace_from old new (drop (length old) (c # cs))
      else c # replace_from old new cs)"

definition py_replace :: "pystr \<Rightarrow> pystr \<Rightarrow> pystr \<Rightarrow> pystr" where
  "py_replace old new s =
     (if old = [] then new @ concat (map (\<lambda>c. c # new) s) else replace_from old new s)"

subsection \<open>The inbox listing\<close>

text \<open>
  \<^verbatim>\<open>
  def print_list(coll):
      items = _sort_desc_by_created(coll.get("hydra:member", []))
      total = coll.get("hydra:totalItems", len(items))
      print(f"Inbox (showing {len(items)} of ~{total})")
      print("--------------------------------------------------------------")
      if not items:
          print("(empty)")
          return
      for it in items:
          created = it.get("createdAt")
          subj = it.get("subject") or "(no subject)"
          mid = it.get("id")
          intro = it.get("intro") or ""
          seen = "(check mark)" if it.get("seen") else " "
          frm_str = _format_address(it.get("from"))
          print(f"[{seen}] {created}  {subj}")
          print(f"      From: {frm_str}")
          print(f"      ID:   {mid}")
          if intro:
              print(f"      Intro: {intro[:120].replace('\\n',' ')}{'(ellipsis)' if len(intro) > 120 else ''}")
          print()
  \<close>
  The check mark is the code point 10003 and the ellipsis the code point 8230.

  The preview of the intro is an expression inside an f-string; a backslash there is read
  only from Python 3.12 on, which reads \<^verbatim>\<open>'\\n'\<close> as an ordinary string literal: the
  two characters backslash (92) and \<^verbatim>\<open>n\<close> (110). A truthy intro that is not a
  string raises: a list has no \<^verbatim>\<open>replace\<close>, a dict has no key that is a slice, a
  number cannot be sliced.
\<close>

definition intro_preview :: "json \<Rightarrow> error + pystr" where
  "intro_preview intro =
     (case intro of
        JStr s \<Rightarrow>
          Inr (py_replace [92, 110] [32] (take 120 s) @ (if 120 < length s then [8230] else []))
      | JList xs \<Rightarrow> Inl AttributeError
      | JDict d \<Rightarrow> Inl KeyError
      | _ \<Rightarrow> Inl TypeError)"

definition print_item :: "pylib \<Rightarrow> json \<Rightarrow> printed" where
  "print_item L it =
     (case it of
        JDict d \<Rightarrow>
          (let created = dict_get d (lit ''createdAt'');
               subj = py_or (dict_get d (lit ''subject'')) (JStr (lit ''(no subject)''));
               mid = dict_get d (lit ''id'');
               intro = py_or (dict_get d (lit ''intro'')) (JStr []);
               seen = (if truthy (dict_get d (lit ''seen'')) then [10003] else [32]);
               frm_str = format_address L (dict_get d (lit ''from''))
           in andthen
                (says [lit ''['' @ seen @ lit ''] '' @ py_str L created @ lit ''  '' @ py_str L subj,
                       lit ''      From: '' @ py_str L frm_str,
                       lit ''      ID:   '' @ py_str L mid])
                (andthen
                   (if truthy intro
                    then (case intro_preview intro of
                            Inl e \<Rightarrow> raises e
                          | Inr p \<Rightarrow> says [lit ''      Intro: '' @ p])
                    else says [])
                   (says [[]])))
      | _ \<Rightarrow> raises AttributeError)"

fun print_items :: "pylib \<Rightarrow> json list \<Rightarrow> printed" where
  "print_items L [] = says []"
| "print_items L (it # its) = andthen (print_item L it) (print_items L its)"

definition print_list :: "pylib \<Rightarrow> json \<Rightarrow> printed" where
  "print_list L coll =
     (case coll of
        JDict d \<Rightarrow>
          (case sort_desc_by_created (dict_get_default d (lit ''hydra:member'') (JList [])) of
             Inl e \<Rightarrow> raises e
           | Inr items \<Rightarrow>
               (let total = dict_get_default d (lit ''hydra:totalItems'') (JInt (int (length items)))
                in andthen
                     (says [lit ''Inbox (showing '' @ py_str L (JInt (int (length items))) @
                              lit '' of ~'' @ py_str L total @ lit '')'',
                            replicate 62 45])
                     (if items = [] then says [lit ''(empty)''] else print_items L items)))
      | _ \<Rightarrow> raises AttributeError)"

subsection \<open>The message view\<close>

text \<open>
  \<^verbatim>\<open>
  def print_message(full):
      print("Message")
      print("-------")
      print(f"ID:       {full.get('id')}")
      print(f"Date:     {full.get('createdAt')}")
      print(f"From:     {_format_address(full.get('from'))}")
      tos_raw = full.get("to") or full.get("recipients")
      print(f"To:       {_format_address_list(tos_raw)}")
      print(f"Subject:  {full.get('subject') or '(no subject)'}")
      print(f"Seen:     {full.get('seen')}")
      print(f"Size:     {full.get('size')}")
      print(f"HasAtts:  {full.get('hasAttachments')}")
      print()
  \<close>
\<close>

definition message_header :: "pylib \<Rightarrow> (pystr \<times> json) list \<Rightarrow> printed" where
  "message_header L full =
     andthen
       (says [lit ''Message'', lit ''-------'',
              lit ''ID:       '' @ py_str L (dict_get full (lit ''id'')),
              lit ''Date:     '' @ py_str L (dict_get full (lit ''createdAt'')),
              lit ''From:     '' @ py_str L (format_address L (dict_get full (lit ''from'')))])
       (case format_address_list L
                (py_or (dict_get full (lit ''to'')) (dict_get full (lit ''recipients''))) of
          Inl e \<Rightarrow> raises e
        | Inr tos \<Rightarrow>
            says [lit ''To:       '' @ tos,
                  lit ''Subject:  '' @
                    py_str L (py_or (dict_get full (lit ''subject'')) (JStr (lit ''(no subject)''))),
                  lit ''Seen:     '' @ py_str L (dict_get full (lit ''seen'')),
                  lit ''Size:     '' @ py_str L (dict_get full (lit ''size'')),
                  lit ''HasAtts:  '' @ py_str L (dict_get full (lit ''hasAttachments'')),
                  []])"

text \<open>
  \<^verbatim>\<open>
      body_text = full.get("text")
      if isinstance(body_text, str) and body_text.strip():
          print("Text Body")
          print("---------")
          print(body_text.strip())
          print()
      else:
          html_parts = full.get("html") or []
          if html_parts:
              simplified = _simplify_html(html_parts)
              if simplified:
                  print("HTML Body (simplified)")
                  print("----------------------")
                  print(simplified)
                  print()
              else:
                  print("(No body content)")
          else:
              print("(No body content)")
  \<close>
\<close>

definition text_section :: "pystr \<Rightarrow> pystr list" where
  "text_section body = [lit ''Text Body'', lit ''---------'', body, []]"

definition html_section :: "pystr \<Rightarrow> pystr list" where
  "html_section body = [lit ''HTML Body (simplified)'', lit ''----------------------'', body, []]"

definition no_content :: "pystr list" where
  "no_content = [lit ''(No body content)'']"

definition message_body :: "pylib \<Rightarrow> (pystr \<times> json) list \<Rightarrow> printed" where
  "message_body L full =
     (let body_text = dict_get full (lit ''text'')
      in if is_str body_text \<and> py_strip (py_str L body_text) \<noteq> []
         then says (text_section (py_strip (py_str L body_text)))
         else (let html_parts = py_or (dict_get full (lit ''html'')) (JList [])
               in if truthy html_parts
                  then (case simplify_html L html_parts of
                          Inl e \<Rightarrow> raises e
                        | Inr simplified \<Rightarrow>
                            if simplified \<noteq> [] then says (html_section simplified)
                            else says no_content)
                  else says no_content))"

text \<open>
  \<^verbatim>\<open>
      if full.get("hasAttachments"):
          for a in full.get("attachments") or []:
              if isinstance(a, dict):
                  print(f"- id={a.get('id')}  name={a.get('filename')}  type={a.get('contentType')}  size={a.get('size')}")
      print()
  \<close>
\<close>

definition attachment_line :: "pylib \<Rightarrow> (pystr \<times> json) list \<Rightarrow> pystr" where
  "attachment_line L a =
     lit ''- id='' @ py_str L (dict_get a (lit ''id'')) @
     lit ''  name='' @ py_str L (dict_get a (lit ''filename'')) @
     lit ''  type='' @ py_str L (dict_get a (lit ''contentType'')) @
     lit ''  size='' @ py_str L (dict_get a (lit ''size''))"

fun attachment_lines :: "pylib \<Rightarrow> json list \<Rightarrow> pystr list" where
  "attachment_lines L [] = []"
| "attachment_lines L (JDict a # as) = attachment_line L a # attachment_lines L as"
| "attachment_lines L (v # as) = attachment_lines L as"

definition message_attachments :: "pylib \<Rightarrow> (pystr \<times> json) list \<Rightarrow> printed" where
  "message_attachments L full =
     andthen
       (if truthy (dict_get full (lit ''hasAttachments''))
        then (case py_iter (py_or (dict_get full (lit ''attachments'')) (JList [])) of
                Inl e \<Rightarrow> raises e
              | Inr as \<Rightarrow> says (attachment_lines L as))
        else says [])
       (says [[]])"

definition print_message :: "pylib \<Rightarrow> json \<Rightarrow> printed" where
  "print_message L full =
     (case full of
        JDict d \<Rightarrow> andthen (message_header L d) (andthen (message_body L d) (message_attachments L d))
      | _ \<Rightarrow> ([lit ''Message'', lit ''-------''], Some AttributeError))"

text \<open>The plain-text body is a string that is not empty after trimming.\<close>

definition has_text :: "(pystr \<times> json) list \<Rightarrow> bool" where
  "has_text full = (case dict_get full (lit ''text'') of JStr t \<Rightarrow> py_strip t \<noteq> [] | _ \<Rightarrow> False)"

text \<open>An example message: a blank text body, one HTML fragment, attachments that are
  listed but not announced.\<close>

definition ex_message :: "(pystr \<times> json) list" where
  "ex_message =
     [(lit ''id'', JStr (lit ''m1'')),
      (lit ''text'', JStr (lit ''   '')),
      (lit ''html'', JList [JStr (lit ''<p>Hello</p>'')]),
      (lit ''hasAttachments'', JBool False),
      (lit ''attachments'', JList [JDict [(lit ''id'', JStr (lit ''a1''))]])]"

section \<open>Basic facts\<close>

declare matches.simps [simp del]

lemma strs_of_map_JStr: "strs_of (map JStr ss) = Some ss"
  by (induction ss) simp_all

lemma filter_truthy_map_JStr:
  "filter truthy (map JStr ss) = map JStr (filter (\<lambda>s. s \<noteq> []) ss)"
  by (induction ss) simp_all

lemma strs_of_not_str: "x \<in> set ys \<Longrightarrow> \<not> is_str x \<Longrightarrow> strs_of ys = None"
proof (induction ys)
  case Nil
  then show ?case by simp
next
  case (Cons y ys)
  then show ?case by (cases y) auto
qed

lemma py_join_strs: "py_join sep (map JStr ss) = Inr (join_strs sep ss)"
  by (simp add: py_join_def strs_of_map_JStr)

lemma address_like_is_str: "address_like x \<Longrightarrow> is_str (format_address L x)"
proof (cases x)
  case (JDict d)
  assume "address_like x"
  with JDict have a: "str_or_falsy (dict_get d (lit ''name''))"
    and b: "str_or_falsy (dict_get d (lit ''address''))"
    by (simp_all add: address_like_def)
  from a b show ?thesis
    unfolding JDict
    by (cases "dict_get d (lit ''name'')"; cases "dict_get d (lit ''address'')")
       (simp_all add: format_address_def str_or_falsy_def py_or_def Let_def)
qed (simp_all add: format_address_def)

lemmas dict_defs = dict_get_def dict_get_default_def py_or_def lit_def

lemmas rx_defs = rx_script_style_def rx_br_def rx_block_close_def rx_tag_def
  rx_trailing_blanks_def rx_newlines_def seqs_def alts_def Opt_def Plus_def word_i_def
  chr_ignorecase_def sre_lower_is_def sre_lower_matched_def py_isspace_def py_isdecimal_def
  matches.simps

lemmas simplify_defs = simplify_html_def simplify_text_def Let_def lit_def py_unescape_def
  py_strip_def




lemma sort_key_str_keyed: "str_keyed m \<Longrightarrow> sort_key m = Inr (JStr (created_key m))"
  by (cases m) (auto simp: str_keyed_def sort_key_def created_key_def elim: is_str.elims)

lemma keyed_str_keyed: "\<forall>m \<in> set ms. str_keyed m \<Longrightarrow> keyed ms = Inr (map with_key ms)"
  by (induction ms) (simp_all add: sort_key_str_keyed with_key_def)

lemma insert_desc_with_key:
  "insert_desc (with_key x) (map with_key ys) = Inr (map with_key (place_desc x ys))"
  by (induction ys) (simp_all add: with_key_def)

lemma sorted_desc_with_key: "sorted_desc (map with_key ms) = Inr (map with_key (stable_desc ms))"
  by (induction ms) (simp_all add: insert_desc_with_key)

lemma snd_with_key: "snd \<circ> with_key = id"
  by (simp add: with_key_def fun_eq_iff)

lemma sort_desc_by_created_str_keyed:
  "\<forall>m \<in> set ms. str_keyed m \<Longrightarrow> sort_desc_by_created (JList ms) = Inr (stable_desc ms)"
  by (simp add: sort_desc_by_created_def keyed_str_keyed sorted_desc_with_key snd_with_key)

lemma mset_place_desc: "mset (place_desc x ys) = add_mset x (mset ys)"
  by (induction ys) simp_all

lemma mset_stable_desc: "mset (stable_desc ms) = mset ms"
  by (induction ms) (simp_all add: mset_place_desc)

lemma set_place_desc: "set (place_desc x ys) = insert x (set ys)"
  by (induction ys) auto

lemma set_stable_desc: "set (stable_desc ms) = set ms"
  by (induction ms) (simp_all add: set_place_desc)

lemma desc_sorted_place_desc: "desc_sorted ys \<Longrightarrow> desc_sorted (place_desc x ys)"
proof (induction ys)
  case Nil
  then show ?case by (simp add: desc_sorted_def)
next
  case (Cons y ys)
  then have tail: "\<forall>z \<in> set ys. created_key z \<le> created_key y" and ys: "desc_sorted ys"
    by (simp_all add: desc_sorted_def)
  show ?case
  proof (cases "created_key x < created_key y")
    case True
    with Cons.IH [OF ys] tail show ?thesis
      by (auto simp: desc_sorted_def set_place_desc)
  next
    case False
    then have "created_key y \<le> created_key x" by simp
    with tail have "\<forall>z \<in> set (y # ys). created_key z \<le> created_key x"
      by auto
    with Cons.prems False show ?thesis
      by (simp add: desc_sorted_def)
  qed
qed

lemma desc_sorted_stable_desc: "desc_sorted (stable_desc ms)"
  by (induction ms) (simp_all add: desc_sorted_place_desc, simp add: desc_sorted_def)

lemma filter_place_desc:
  "filter (\<lambda>m. created_key m = k) (place_desc x ys) = filter (\<lambda>m. created_key m = k) (x # ys)"
  by (induction ys) auto

lemma filter_stable_desc:
  "filter (\<lambda>m. created_key m = k) (stable_desc ms) = filter (\<lambda>m. created_key m = k) ms"
  by (induction ms) (simp_all add: filter_place_desc)

lemma stable_desc_sorted: "desc_sorted ms \<Longrightarrow> stable_desc ms = ms"
proof (induction ms)
  case Nil
  then show ?case by simp
next
  case (Cons x xs)
  then have xs: "stable_desc xs = xs" and le: "\<forall>z \<in> set xs. created_key z \<le> created_key x"
    by (simp_all add: desc_sorted_def)
  from le have "place_desc x xs = x # xs"
    by (cases xs) auto
  with xs show ?case by simp
qed

lemma desc_sorted_empty_key_last:
  assumes "desc_sorted r" "i < j" "j < length r" "created_key (r ! i) = []"
  shows "created_key (r ! j) = []"
proof -
  from assms(1-3) have "created_key (r ! j) \<le> created_key (r ! i)"
    by (simp add: desc_sorted_def sorted_wrt_iff_nth_less)
  with assms(4) show ?thesis by simp
qed

lemma created_key_missing:
  "map_of d (lit ''createdAt'') = None \<Longrightarrow> created_key (JDict d) = [] \<and> str_keyed (JDict d)"
  by (simp add: created_key_def str_keyed_def dict_get_def dict_get_default_def py_or_def)

lemma seqs_Cons: "seqs (r # rs) = Seq r (seqs rs)"
  by (simp add: seqs_def)

lemma matches_Seq_Chr_Nil: "matches (Seq (Chr p) r) g [] = []"
  by (simp add: matches.simps)

lemma matches_Seq_Chr_Cons:
  "matches (Seq (Chr p) r) g (c # cs) = (if c = p then matches r g cs else [])"
  by (simp add: matches.simps)

lemma matches_Star_Chr_Nil: "matches (Star (Chr p)) g [] = [(g, [])]"
  by (simp add: matches.simps(8) [of "Chr p" g "[]"] matches.simps(2))

lemma matches_Star_Chr_Cons:
  "matches (Star (Chr p)) g (c # cs) =
     (if c = p then matches (Star (Chr p)) g cs else []) @ [(g, c # cs)]"
  by (simp add: matches.simps(8) [of "Chr p" g "c # cs"] matches.simps(2))

lemma matches_Star_Chr:
  "\<exists>ms. matches (Star (Chr p)) g s = (g, dropWhile (\<lambda>c. c = p) s) # ms"
proof (induction s)
  case Nil
  show ?case by (simp add: matches_Star_Chr_Nil)
next
  case (Cons c cs)
  then obtain ms where "matches (Star (Chr p)) g cs = (g, dropWhile (\<lambda>c. c = p) cs) # ms"
    by blast
  then show ?case by (simp add: matches_Star_Chr_Cons)
qed

lemma matches_Seq_Eps_hd:
  "matches r g s = (g', s') # ms \<Longrightarrow> \<exists>ms'. matches (Seq r Eps) g s = (g', s') # ms'"
  by (simp add: matches.simps(6) matches.simps(1))

lemma rx_newlines_eq:
  "rx_newlines = Seq (Chr 10) (Seq (Chr 10) (Seq (Chr 10) (Seq (Star (Chr 10)) Eps)))"
  by (simp add: rx_newlines_def seqs_def)

lemma matches_rx_newlines_hit:
  "\<exists>ms. matches rx_newlines None (10 # 10 # 10 # s) = (None, dropWhile (\<lambda>c. c = 10) s) # ms"
proof -
  obtain ms where "matches (Star (Chr 10)) None s = (None, dropWhile (\<lambda>c. c = 10) s) # ms"
    using matches_Star_Chr by blast
  then obtain ms' where
    "matches (Seq (Star (Chr 10)) Eps) None s = (None, dropWhile (\<lambda>c. c = 10) s) # ms'"
    using matches_Seq_Eps_hd by blast
  then show ?thesis
    by (simp add: rx_newlines_eq matches_Seq_Chr_Cons)
qed

lemma matches_rx_newlines_Nil: "matches rx_newlines None [] = []"
  by (simp add: rx_newlines_eq matches_Seq_Chr_Nil)

lemma matches_rx_newlines_miss:
  assumes "\<not> (c = 10 \<and> take 2 cs = [10, 10])"
  shows "matches rx_newlines None (c # cs) = []"
proof (cases "c = 10")
  case False
  then show ?thesis by (simp add: rx_newlines_eq matches_Seq_Chr_Cons)
next
  case True
  with assms have t: "take 2 cs \<noteq> [10, 10]" by simp
  show ?thesis
  proof (cases cs)
    case Nil
    then show ?thesis by (simp add: rx_newlines_eq matches_Seq_Chr_Cons matches_Seq_Chr_Nil)
  next
    case c1: (Cons a as)
    show ?thesis
    proof (cases as)
      case Nil
      with c1 show ?thesis
        by (simp add: rx_newlines_eq matches_Seq_Chr_Cons matches_Seq_Chr_Nil)
    next
      case (Cons b bs)
      with c1 t have "\<not> (a = 10 \<and> b = 10)" by simp
      with c1 Cons show ?thesis
        by (auto simp add: rx_newlines_eq matches_Seq_Chr_Cons)
    qed
  qed
qed

lemma re_sub_rx_newlines: "re_sub rx_newlines [10, 10] s = squeeze_newlines s"
proof (induction s rule: squeeze_newlines.induct)
  case 1
  show ?case by (simp add: matches_rx_newlines_Nil)
next
  case (2 c cs)
  show ?case
  proof (cases "c = 10 \<and> take 2 cs = [10, 10]")
    case True
    then obtain t where cs: "cs = 10 # 10 # t"
      by (cases cs; cases "tl cs") auto
    obtain ms where m: "matches rx_newlines None (10 # 10 # 10 # t) =
        (None, dropWhile (\<lambda>c. c = 10) t) # ms"
      using matches_rx_newlines_hit by blast
    have len: "length (dropWhile (\<lambda>c. c = 10) t) < Suc (length cs)"
      using length_dropWhile_le [of "\<lambda>c. c = 10" t] cs by simp
    have dw: "dropWhile (\<lambda>x. x = 10) cs = dropWhile (\<lambda>c. c = 10) t"
      using cs by simp
    have ih: "re_sub rx_newlines [10, 10] (dropWhile (\<lambda>x. x = 10) cs) =
        squeeze_newlines (dropWhile (\<lambda>x. x = 10) cs)"
      using True "2.IH"(1) by blast
    have "re_sub rx_newlines [10, 10] (c # cs) =
        [10, 10] @ re_sub rx_newlines [10, 10] (dropWhile (\<lambda>c. c = 10) t)"
      using True cs m len by simp
    also have "\<dots> = [10, 10] @ squeeze_newlines (dropWhile (\<lambda>x. x = 10) cs)"
      using ih dw by simp
    also have "\<dots> = squeeze_newlines (c # cs)"
      using True by simp
    finally show ?thesis .
  next
    case False
    then have m: "matches rx_newlines None (c # cs) = []"
      by (rule matches_rx_newlines_miss)
    have ih: "re_sub rx_newlines [10, 10] cs = squeeze_newlines cs"
      using False "2.IH"(2) by blast
    have "re_sub rx_newlines [10, 10] (c # cs) = c # re_sub rx_newlines [10, 10] cs"
      using m by simp
    also have "\<dots> = squeeze_newlines (c # cs)"
      using False ih by auto
    finally show ?thesis .
  qed
qed


lemma rx_trailing_blanks_eq:
  "rx_trailing_blanks = Seq (Seq (Cls is_blank) (Star (Cls is_blank))) (Seq (Chr 10) Eps)"
proof -
  have "(\<lambda>c. c = 32 \<or> c = 9) = is_blank"
    by (simp add: is_blank_def fun_eq_iff)
  then show ?thesis
    by (simp add: rx_trailing_blanks_def seqs_def Plus_def)
qed

lemma matches_Chr_Eps_Nil: "matches (Seq (Chr p) Eps) g [] = []"
  by (simp add: matches.simps)

lemma matches_Chr_Eps_Cons:
  "matches (Seq (Chr p) Eps) g (c # cs) = (if c = p then [(g, cs)] else [])"
  by (simp add: matches.simps)

lemma matches_Star_Cls_Nil: "matches (Star (Cls P)) g [] = [(g, [])]"
  by (simp add: matches.simps(8) [of "Cls P" g "[]"] matches.simps(5))

lemma matches_Star_Cls_Cons:
  "matches (Star (Cls P)) g (c # cs) =
     (if P c then matches (Star (Cls P)) g cs else []) @ [(g, c # cs)]"
  by (simp add: matches.simps(8) [of "Cls P" g "c # cs"] matches.simps(5))

lemma blanks_then_newline:
  "concat (map (\<lambda>(g', s'). matches (Seq (Chr 10) Eps) g' s') (matches (Star (Cls is_blank)) g s)) =
     (if take 1 (dropWhile is_blank s) = [10] then [(g, drop 1 (dropWhile is_blank s))] else [])"
proof (induction s)
  case Nil
  show ?case by (simp add: matches_Star_Cls_Nil matches_Chr_Eps_Nil)
next
  case (Cons c cs)
  show ?case
  proof (cases "is_blank c")
    case True
    then have "c \<noteq> 10" by (auto simp: is_blank_def)
    with True Cons show ?thesis
      by (simp add: matches_Star_Cls_Cons matches_Chr_Eps_Cons)
  next
    case False
    have "\<not> is_blank 10" by (simp add: is_blank_def)
    with False show ?thesis
      by (auto simp add: matches_Star_Cls_Cons matches_Chr_Eps_Cons)
  qed
qed

lemma matches_Seq_Cls_Nil: "matches (Seq (Cls P) r) g [] = []"
  by (simp add: matches.simps(6) [of "Cls P" r] matches.simps(5))

lemma matches_Seq_Cls_Cons:
  "matches (Seq (Cls P) r) g (c # cs) = (if P c then matches r g cs else [])"
  by (simp add: matches.simps(6) [of "Cls P" r] matches.simps(5))

lemma matches_rx_trailing_blanks_Nil: "matches rx_trailing_blanks None [] = []"
  by (simp add: rx_trailing_blanks_eq matches_Seq_Cls_Nil
      matches.simps(6) [of "Seq (Cls is_blank) (Star (Cls is_blank))" "Seq (Chr 10) Eps"])

lemma matches_rx_trailing_blanks:
  "matches rx_trailing_blanks None (c # cs) =
     (if is_blank c \<and> take 1 (dropWhile is_blank cs) = [10]
      then [(None, drop 1 (dropWhile is_blank cs))] else [])"
proof -
  have "matches rx_trailing_blanks None (c # cs) =
      concat (map (\<lambda>(g', s'). matches (Seq (Chr 10) Eps) g' s')
        (if is_blank c then matches (Star (Cls is_blank)) None cs else []))"
    unfolding rx_trailing_blanks_eq
    by (subst matches.simps(6)) (simp only: matches_Seq_Cls_Cons)
  also have "\<dots> =
      (if is_blank c
       then concat (map (\<lambda>(g', s'). matches (Seq (Chr 10) Eps) g' s')
              (matches (Star (Cls is_blank)) None cs))
       else [])"
    by (cases "is_blank c") simp_all
  also have "\<dots> =
      (if is_blank c \<and> take 1 (dropWhile is_blank cs) = [10]
       then [(None, drop 1 (dropWhile is_blank cs))] else [])"
    by (simp only: blanks_then_newline) simp
  finally show ?thesis .
qed

lemma re_sub_newline_first:
  "re_sub rx_trailing_blanks [10] (10 # t) = 10 # re_sub rx_trailing_blanks [10] t"
  by (simp add: matches_rx_trailing_blanks is_blank_def)

lemma re_sub_rx_trailing_blanks:
  "re_sub rx_trailing_blanks [10] s = drop_blanks_before_newline s"
proof (induction s rule: drop_blanks_before_newline.induct)
  case 1
  show ?case by (simp add: matches_rx_trailing_blanks_Nil)
next
  case (2 c cs)
  show ?case
  proof (cases "is_blank c \<and> take 1 (dropWhile is_blank cs) = [10]")
    case True
    then obtain t where t: "dropWhile is_blank cs = 10 # t"
      by (cases "dropWhile is_blank cs") auto
    have len: "length (drop 1 (dropWhile is_blank cs)) < Suc (length cs)"
      using length_dropWhile_le [of is_blank cs] by simp
    have ih: "re_sub rx_trailing_blanks [10] (dropWhile is_blank cs) =
        drop_blanks_before_newline (dropWhile is_blank cs)"
      using True "2.IH"(1) by blast
    have "re_sub rx_trailing_blanks [10] (c # cs) =
        [10] @ re_sub rx_trailing_blanks [10] (drop 1 (dropWhile is_blank cs))"
      using True len by (simp add: matches_rx_trailing_blanks)
    also have "\<dots> = re_sub rx_trailing_blanks [10] (dropWhile is_blank cs)"
      using t by (simp add: re_sub_newline_first del: re_sub.simps)
    also have "\<dots> = drop_blanks_before_newline (c # cs)"
      using True ih by simp
    finally show ?thesis .
  next
    case False
    have ih: "re_sub rx_trailing_blanks [10] cs = drop_blanks_before_newline cs"
      using False "2.IH"(2) by blast
    have "re_sub rx_trailing_blanks [10] (c # cs) = c # re_sub rx_trailing_blanks [10] cs"
      using False by (auto simp add: matches_rx_trailing_blanks)
    also have "\<dots> = drop_blanks_before_newline (c # cs)"
      using False ih by auto
    finally show ?thesis .
  qed
qed

lemma re_sub_first_char_absent: "p \<notin> set s \<Longrightarrow> re_sub (Seq (Chr p) r) repl s = s"
  by (induction s) (simp_all add: matches_Seq_Chr_Nil matches_Seq_Chr_Cons)

lemma simplify_text_passes:
  "simplify_text L s =
     py_strip (squeeze_newlines (drop_blanks_before_newline
       (re_sub rx_tag [] (re_sub (rx_block_close L) [10] (re_sub rx_br [10]
         (re_sub rx_script_style [] (py_unescape L s)))))))"
  by (simp add: simplify_text_def Let_def re_sub_rx_newlines re_sub_rx_trailing_blanks)

lemma simplify_text_no_lt:
  assumes "60 \<notin> set (py_unescape L s)"
  shows "simplify_text L s =
    py_strip (squeeze_newlines (drop_blanks_before_newline (py_unescape L s)))"
  using assms
  by (simp add: simplify_text_passes rx_script_style_def rx_br_def rx_block_close_def
      rx_tag_def seqs_Cons re_sub_first_char_absent)

lemma andthen_says: "andthen (says ls) q = (ls @ fst q, snd q)"
  by (simp add: andthen_def says_def)

lemma fst_says: "fst (says ls) = ls" and snd_says: "snd (says ls) = None"
  by (simp_all add: says_def)

lemma message_header_ok:
  "format_address_list L (py_or (dict_get d (lit ''to'')) (dict_get d (lit ''recipients''))) = Inr tos
   \<Longrightarrow> snd (message_header L d) = None"
  by (simp add: message_header_def andthen_def says_def)

lemma print_message_ok:
  "snd (message_header L d) = None \<Longrightarrow> snd (message_body L d) = None \<Longrightarrow>
   fst (print_message L (JDict d)) =
     fst (message_header L d) @ fst (message_body L d) @ fst (message_attachments L d)"
  by (simp add: print_message_def andthen_def)


lemma message_body_html:
  "\<not> has_text d \<Longrightarrow>
   simplify_html L (py_or (dict_get d (lit ''html'')) (JList [])) = Inr simplified \<Longrightarrow>
   message_body L d = says (if simplified \<noteq> [] then html_section simplified else no_content)"
  by (cases "dict_get d (lit ''text'')")
     (auto simp add: message_body_def has_text_def py_str_def Let_def simplify_html_def)

lemma replace_from_absent: "hd old \<notin> set s \<Longrightarrow> replace_from old new s = s"
proof (induction s)
  case Nil
  show ?case by simp
next
  case (Cons c cs)
  then have "take (length old) (c # cs) \<noteq> old \<or> old = []"
    by (cases old) auto
  with Cons show ?case by auto
qed

lemma attachment_lines_filter: "attachment_lines L as = attachment_lines L (filter is_dict as)"
  by (induction L as rule: attachment_lines.induct) simp_all

lemma attachment_lines_dicts: "attachment_lines L (map JDict ds) = map (attachment_line L) ds"
  by (induction ds) simp_all

lemma ex_message_html:
  "simplify_html L (py_or (dict_get ex_message (lit ''html'')) (JList [])) = Inr (lit ''Hello'')"
  by (simp add: ex_message_def dict_defs simplify_defs rx_defs)

section \<open>The collection normalizer: claim C1\<close>

text \<open>
  C1 says that the normalizer returns a valid envelope for every decoded value, and that
  for a mapping the total count defaults to the number of items when it is absent.

  The code returns a mapping as it is: it adds no field and checks none. What holds is:
  a sequence is wrapped with its length as the total count; a mapping is returned
  unchanged; every other value gives the empty envelope; and the result is a valid
  envelope exactly when the input is not a mapping or is a mapping that is already a
  valid envelope.
\<close>

theorem normalize_collection_shapes:
  "normalize_collection (JList xs) =
     JDict [(lit ''hydra:member'', JList xs), (lit ''hydra:totalItems'', JInt (int (length xs)))]
   \<and> normalize_collection (JDict d) = JDict d
   \<and> (\<not> is_list v \<and> \<not> is_dict v \<longrightarrow>
        normalize_collection v =
          JDict [(lit ''hydra:member'', JList []), (lit ''hydra:totalItems'', JInt 0)])
   \<and> (valid_envelope (normalize_collection v) \<longleftrightarrow> (is_dict v \<longrightarrow> valid_envelope v))"
proof -
  have neq: "lit ''hydra:member'' \<noteq> lit ''hydra:totalItems''"
    by (simp add: lit_def)
  have "valid_envelope (normalize_collection v) \<longleftrightarrow> (is_dict v \<longrightarrow> valid_envelope v)"
    using neq by (cases v) (simp_all add: normalize_collection_def valid_envelope_def)
  moreover have "\<not> is_list v \<and> \<not> is_dict v \<longrightarrow>
        normalize_collection v =
          JDict [(lit ''hydra:member'', JList []), (lit ''hydra:totalItems'', JInt 0)]"
    by (cases v) (simp_all add: normalize_collection_def)
  ultimately show ?thesis
    by (simp add: normalize_collection_def)
qed

theorem normalize_collection_shapes_witness:
  "normalize_collection JNull =
     JDict [(lit ''hydra:member'', JList []), (lit ''hydra:totalItems'', JInt 0)]
   \<and> valid_envelope (normalize_collection JNull)
   \<and> normalize_collection (JList [JInt 4, JInt 5]) =
     JDict [(lit ''hydra:member'', JList [JInt 4, JInt 5]), (lit ''hydra:totalItems'', JInt 2)]"
  using normalize_collection_shapes [of "[JInt 4, JInt 5]" "[]" JNull]
  by (simp add: valid_envelope_def lit_def)

theorem normalize_collection_mapping_counterexample:
  "normalize_collection (JDict [(lit ''hydra:member'', JList [JInt 7])]) =
     JDict [(lit ''hydra:member'', JList [JInt 7])]
   \<and> \<not> valid_envelope (normalize_collection (JDict [(lit ''hydra:member'', JList [JInt 7])]))
   \<and> \<not> valid_envelope (normalize_collection (JDict []))"
  by (simp add: normalize_collection_def valid_envelope_def lit_def)

section \<open>The address formatter: claims C8 and C9\<close>

text \<open>
  C8: \<^verbatim>\<open>_format_address\<close> returns \<^verbatim>\<open>name <address>\<close> for a mapping whose name
  and address are both non-empty (truthy), the one that is present when only one is, the
  string itself for a string, and the empty string for everything else. The fields are
  interpolated with \<^verbatim>\<open>str\<close>; for two non-empty strings \<open>n\<close> and \<open>a\<close> the
  result is \<open>n @ '' <'' @ a @ ''>''\<close>.
\<close>

theorem format_address_cases:
  "(truthy (dict_get d (lit ''name'')) \<and> truthy (dict_get d (lit ''address'')) \<longrightarrow>
      format_address L (JDict d) =
        JStr (py_str L (dict_get d (lit ''name'')) @ lit '' <'' @
              py_str L (dict_get d (lit ''address'')) @ lit ''>''))
   \<and> (truthy (dict_get d (lit ''name'')) \<and> \<not> truthy (dict_get d (lit ''address'')) \<longrightarrow>
      format_address L (JDict d) = dict_get d (lit ''name''))
   \<and> (\<not> truthy (dict_get d (lit ''name'')) \<and> truthy (dict_get d (lit ''address'')) \<longrightarrow>
      format_address L (JDict d) = dict_get d (lit ''address''))
   \<and> (\<not> truthy (dict_get d (lit ''name'')) \<and> \<not> truthy (dict_get d (lit ''address'')) \<longrightarrow>
      format_address L (JDict d) = JStr [])
   \<and> (dict_get d (lit ''name'') = JStr n \<and> n \<noteq> [] \<and>
       dict_get d (lit ''address'') = JStr a \<and> a \<noteq> [] \<longrightarrow>
      format_address L (JDict d) = JStr (n @ lit '' <'' @ a @ lit ''>''))
   \<and> format_address L (JStr s) = JStr s
   \<and> (\<not> is_dict v \<and> \<not> is_str v \<longrightarrow> format_address L v = JStr [])"
proof -
  have "\<not> is_dict v \<and> \<not> is_str v \<longrightarrow> format_address L v = JStr []"
    by (cases v) (simp_all add: format_address_def)
  then show ?thesis
    by (simp add: format_address_def py_or_def py_str_def Let_def)
qed

theorem format_address_cases_witness:
  "\<forall>L. format_address L (JDict [(lit ''name'', JStr (lit ''Bob'')),
                               (lit ''address'', JStr (lit ''b@x.com''))]) =
          JStr (lit ''Bob <b@x.com>'')
     \<and> format_address L (JDict [(lit ''address'', JStr (lit ''b@x.com''))]) = JStr (lit ''b@x.com'')
     \<and> format_address L (JDict [(lit ''name'', JStr (lit ''Bob''))]) = JStr (lit ''Bob'')
     \<and> format_address L (JDict []) = JStr []
     \<and> format_address L JNull = JStr []"
proof (intro allI conjI)
  fix L
  show "format_address L (JDict [(lit ''name'', JStr (lit ''Bob'')),
                               (lit ''address'', JStr (lit ''b@x.com''))]) =
          JStr (lit ''Bob <b@x.com>'')"
    using format_address_cases [of "[(lit ''name'', JStr (lit ''Bob'')),
                               (lit ''address'', JStr (lit ''b@x.com''))]" L "lit ''Bob''" "lit ''b@x.com''"]
    by (simp add: dict_get_def dict_get_default_def lit_def py_str_def)
  show "format_address L (JDict [(lit ''address'', JStr (lit ''b@x.com''))]) = JStr (lit ''b@x.com'')"
    using format_address_cases [of "[(lit ''address'', JStr (lit ''b@x.com''))]" L]
    by (simp add: dict_get_def dict_get_default_def lit_def py_str_def)
  show "format_address L (JDict [(lit ''name'', JStr (lit ''Bob''))]) = JStr (lit ''Bob'')"
    using format_address_cases [of "[(lit ''name'', JStr (lit ''Bob''))]" L]
    by (simp add: dict_get_def dict_get_default_def lit_def py_str_def)
  show "format_address L (JDict []) = JStr []"
    using format_address_cases [of "[]" L]
    by (simp add: dict_get_def dict_get_default_def lit_def py_str_def)
  show "format_address L JNull = JStr []"
    using format_address_cases [of _ L _ _ _ JNull]
    by simp
qed

text \<open>
  C9 says that \<^verbatim>\<open>_format_address_list\<close> returns, for every value, the empty string
  or the non-empty formatted elements joined by a comma and a space.

  It does so when the formatted elements are strings, which they are for elements of
  the expected shape. A mapping whose only present field is not a string (an address
  that is the number 5) is formatted to that value, and \<^verbatim>\<open>", ".join\<close> raises
  \<^verbatim>\<open>TypeError\<close> on it. What holds is: \<^verbatim>\<open>None\<close>, a Boolean and a number give the
  empty string; a single mapping or string is treated as the list of that one element;
  a list whose formatted elements are the strings \<open>ss\<close> gives the non-empty ones
  joined; a list with an element formatted to a truthy value that is not a string raises
  \<^verbatim>\<open>TypeError\<close>.
\<close>

theorem format_address_list_cases:
  "format_address_list L JNull = Inr []
   \<and> format_address_list L (JBool b) = Inr []
   \<and> format_address_list L (JInt n) = Inr []
   \<and> format_address_list L (JDict d) = format_address_list L (JList [JDict d])
   \<and> format_address_list L (JStr s) = format_address_list L (JList [JStr s])
   \<and> (map (format_address L) xs = map JStr ss \<longrightarrow>
        format_address_list L (JList xs) =
          Inr (join_strs (lit '', '') (filter (\<lambda>s. s \<noteq> []) ss)))
   \<and> ((\<exists>x \<in> set xs. truthy (format_address L x) \<and> \<not> is_str (format_address L x)) \<longrightarrow>
        format_address_list L (JList xs) = Inl TypeError)
   \<and> (address_like x \<longrightarrow> is_str (format_address L x))"
proof -
  have strs: "map (format_address L) xs = map JStr ss \<longrightarrow>
        format_address_list L (JList xs) =
          Inr (join_strs (lit '', '') (filter (\<lambda>s. s \<noteq> []) ss))"
    by (simp add: format_address_list_def format_parts_def filter_truthy_map_JStr py_join_strs)
  have bad: "(\<exists>x \<in> set xs. truthy (format_address L x) \<and> \<not> is_str (format_address L x)) \<longrightarrow>
        format_address_list L (JList xs) = Inl TypeError"
  proof
    assume "\<exists>x \<in> set xs. truthy (format_address L x) \<and> \<not> is_str (format_address L x)"
    then obtain x where "x \<in> set xs" "truthy (format_address L x)" "\<not> is_str (format_address L x)"
      by blast
    then have "format_address L x \<in> set (format_parts L xs)"
      by (simp add: format_parts_def)
    then have "strs_of (format_parts L xs) = None"
      using \<open>\<not> is_str (format_address L x)\<close> by (rule strs_of_not_str)
    then show "format_address_list L (JList xs) = Inl TypeError"
      by (simp add: format_address_list_def py_join_def)
  qed
  show ?thesis
    using strs bad address_like_is_str [of x L]
    by (simp add: format_address_list_def)
qed

theorem format_address_list_cases_witness:
  "\<forall>L. format_address_list L (JList [JDict [(lit ''address'', JStr (lit ''a@x''))],
                                      JDict [(lit ''address'', JStr (lit ''b@x''))]]) =
          Inr (lit ''a@x, b@x'')
     \<and> format_address_list L (JList [JInt 3, JDict [(lit ''name'', JInt 5)]]) = Inl TypeError
     \<and> is_str (format_address L (JDict [(lit ''address'', JStr (lit ''a@x''))]))"
proof (intro allI conjI)
  fix L
  have fa: "format_address L (JDict [(lit ''address'', JStr s)]) = JStr s" for s
    by (auto simp add: format_address_def dict_get_def dict_get_default_def lit_def py_or_def Let_def)
  show "format_address_list L (JList [JDict [(lit ''address'', JStr (lit ''a@x''))],
                                      JDict [(lit ''address'', JStr (lit ''b@x''))]]) =
          Inr (lit ''a@x, b@x'')"
    using format_address_list_cases [of L _ _ _ _
        "[JDict [(lit ''address'', JStr (lit ''a@x''))], JDict [(lit ''address'', JStr (lit ''b@x''))]]"
        "[lit ''a@x'', lit ''b@x'']"]
    by (simp add: fa) (simp add: lit_def)
  have f5: "format_address L (JDict [(lit ''name'', JInt 5)]) = JInt 5"
    by (simp add: format_address_def dict_get_def dict_get_default_def lit_def py_or_def)
  show "format_address_list L (JList [JInt 3, JDict [(lit ''name'', JInt 5)]]) = Inl TypeError"
    using format_address_list_cases [of L _ _ _ _ "[JInt 3, JDict [(lit ''name'', JInt 5)]]"]
    by (simp add: f5)
  show "is_str (format_address L (JDict [(lit ''address'', JStr (lit ''a@x''))]))"
    using format_address_list_cases [of L _ _ _ _ _ _ "JDict [(lit ''address'', JStr (lit ''a@x''))]"]
    by (simp add: address_like_def str_or_falsy_def dict_get_def dict_get_default_def lit_def)
qed

theorem format_address_list_counterexample:
  "\<forall>L. format_address (L::pylib) (JDict [(lit ''address'', JInt 5)]) = JInt 5
     \<and> format_address_list L (JList [JDict [(lit ''address'', JInt 5)]]) = Inl TypeError"
  by (simp add: format_address_list_def format_parts_def format_address_def dict_get_def
      dict_get_default_def lit_def py_or_def py_join_def)

section \<open>Ordering: claim C6\<close>

text \<open>
  C6: the descending sort by creation time is stable and idempotent. For every sequence of
  message summaries (mappings whose \<^verbatim>\<open>createdAt\<close> is a string, or is falsy or missing
  and then counts as the empty string), the sort returns a rearrangement of the items
  with the keys in non-increasing order; the items of each key keep their input order; a
  sequence that is already in non-increasing order is returned unchanged; sorting the
  result again returns it unchanged; an item with the empty key is followed only by
  items with the empty key; and the key of a mapping without \<^verbatim>\<open>createdAt\<close> is the
  empty string. (\<open>created_key\<close> is the string that the key function of the source
  gives for such an item.)
\<close>

theorem sort_desc_by_created_stable:
  assumes "\<forall>m \<in> set items. str_keyed m"
  shows "\<exists>r. sort_desc_by_created (JList items) = Inr r
           \<and> mset r = mset items
           \<and> desc_sorted r
           \<and> (\<forall>k. filter (\<lambda>m. created_key m = k) r = filter (\<lambda>m. created_key m = k) items)
           \<and> (desc_sorted items \<longrightarrow> r = items)
           \<and> sort_desc_by_created (JList r) = Inr r
           \<and> (\<forall>i j. i < j \<and> j < length r \<and> created_key (r ! i) = [] \<longrightarrow> created_key (r ! j) = [])
           \<and> (\<forall>d. map_of d (lit ''createdAt'') = None \<longrightarrow> created_key (JDict d) = [])
           \<and> (\<forall>m \<in> set items. sort_key m = Inr (JStr (created_key m)))"
proof -
  let ?r = "stable_desc items"
  have keys: "\<forall>m \<in> set items. sort_key m = Inr (JStr (created_key m))"
    using assms by (simp add: sort_key_str_keyed)
  have r: "sort_desc_by_created (JList items) = Inr ?r"
    using assms by (rule sort_desc_by_created_str_keyed)
  have srt: "desc_sorted ?r"
    by (rule desc_sorted_stable_desc)
  have "\<forall>m \<in> set ?r. str_keyed m"
    using assms by (simp add: set_stable_desc)
  then have "sort_desc_by_created (JList ?r) = Inr (stable_desc ?r)"
    by (rule sort_desc_by_created_str_keyed)
  then have again: "sort_desc_by_created (JList ?r) = Inr ?r"
    using srt by (simp add: stable_desc_sorted)
  have last: "\<forall>i j. i < j \<and> j < length ?r \<and> created_key (?r ! i) = [] \<longrightarrow> created_key (?r ! j) = []"
    using srt by (blast intro: desc_sorted_empty_key_last)
  show ?thesis
    using r srt again last keys
    by (intro exI [of _ ?r])
       (simp add: mset_stable_desc filter_stable_desc stable_desc_sorted created_key_missing)
qed

theorem sort_desc_by_created_stable_witness:
  "sort_desc_by_created (JList [ex_jan, ex_mar, ex_missing]) = Inr [ex_mar, ex_jan, ex_missing]
   \<and> desc_sorted [ex_mar, ex_jan, ex_missing]
   \<and> sort_desc_by_created (JList [ex_mar, ex_jan, ex_missing]) = Inr [ex_mar, ex_jan, ex_missing]
   \<and> created_key ex_missing = []"
proof -
  have k: "\<forall>m \<in> set [ex_jan, ex_mar, ex_missing]. str_keyed m"
    by (simp add: str_keyed_def ex_jan_def ex_missing_def ex_mar_def dict_defs)
  have e: "sort_desc_by_created (JList [ex_jan, ex_mar, ex_missing]) = Inr [ex_mar, ex_jan, ex_missing]"
    by (simp add: sort_desc_by_created_def sort_key_def ex_jan_def ex_missing_def ex_mar_def dict_defs)
  have m: "map_of [(lit ''id'', JStr (lit ''m3''))] (lit ''createdAt'') = None"
    by (simp add: lit_def)
  from sort_desc_by_created_stable [OF k] e m show ?thesis
    by (auto simp: ex_missing_def)
qed

section \<open>No exception from the core: claim C2\<close>




section \<open>The HTML simplifier: claims C7 and C4\<close>


text \<open>
  C4 says that a single fragment of plain text comes back unchanged but for the trimming
  and the newline runs.

  The passes for character references and for blanks before a newline also apply to plain
  text: \<^verbatim>\<open>a\<close>, a space, a newline and \<^verbatim>\<open>b\<close> lose the space. What holds is: when
  the decoded text has no \<^verbatim>\<open><\<close>, the result is the decoded text with the runs of
  spaces and tabs directly before a newline dropped, then the runs of three or more
  newlines made two, then trimmed; and a text without \<^verbatim>\<open><\<close> and without \<^verbatim>\<open>&\<close>
  is its own decoded text.
\<close>

theorem simplify_plain_text:
  "(60 \<notin> set (py_unescape L s) \<longrightarrow>
      simplify_html L (JList [JStr s]) =
        Inr (py_strip (squeeze_newlines (drop_blanks_before_newline (py_unescape L s)))))
   \<and> (60 \<notin> set s \<and> 38 \<notin> set s \<longrightarrow>
      simplify_html L (JList [JStr s]) =
        Inr (py_strip (squeeze_newlines (drop_blanks_before_newline s))))"
proof -
  have a: "60 \<notin> set (py_unescape L s) \<longrightarrow>
      simplify_html L (JList [JStr s]) =
        Inr (py_strip (squeeze_newlines (drop_blanks_before_newline (py_unescape L s))))"
    by (simp add: simplify_html_def simplify_text_no_lt)
  have "38 \<notin> set s \<Longrightarrow> py_unescape L s = s"
    by (simp add: py_unescape_def)
  with a show ?thesis by auto
qed

theorem simplify_plain_text_witness:
  "\<forall>L. simplify_html L (JList [JStr (lit ''  a \<newline>\<newline>\<newline>\<newline>b c  '')]) =
          Inr (lit ''a\<newline>\<newline>b c'')"
proof
  fix L
  have h: "60 \<notin> set (lit ''  a \<newline>\<newline>\<newline>\<newline>b c  '') \<and> 38 \<notin> set (lit ''  a \<newline>\<newline>\<newline>\<newline>b c  '')"
    by (simp add: lit_def)
  have v: "py_strip (squeeze_newlines (drop_blanks_before_newline
              (lit ''  a \<newline>\<newline>\<newline>\<newline>b c  ''))) = lit ''a\<newline>\<newline>b c''"
    by (simp add: lit_def py_strip_def py_isspace_def is_blank_def)
  show "simplify_html L (JList [JStr (lit ''  a \<newline>\<newline>\<newline>\<newline>b c  '')]) =
          Inr (lit ''a\<newline>\<newline>b c'')"
    using simplify_plain_text [of L "lit ''  a \<newline>\<newline>\<newline>\<newline>b c  ''"] h v
    by simp
qed

theorem simplify_plain_text_counterexample:
  "(\<forall>L. simplify_html L (JList [JStr (lit ''a \<newline>b'')]) = Inr (lit ''a\<newline>b''))
   \<and> py_strip (squeeze_newlines (lit ''a \<newline>b'')) = lit ''a \<newline>b''"
  by (simp add: simplify_defs rx_defs)

section \<open>The renderers: claims C3, C5 and C10\<close>

text \<open>
  C3: in the inbox listing, the preview of a non-empty intro is the intro cut to 120
  characters, with the ellipsis exactly when the intro is longer, and with every newline
  of the preview replaced by a space.

  The cut and the ellipsis are as claimed. The replacement is written
  \<^verbatim>\<open>replace('\\n',' ')\<close> inside the f-string, which replaces the two characters
  backslash and \<^verbatim>\<open>n\<close>, not the newline: for every intro without a backslash the
  preview is the plain cut, so a newline in it stays.
\<close>

theorem intro_preview_no_backslash:
  "(92 \<notin> set s \<longrightarrow>
      intro_preview (JStr s) = Inr (take 120 s @ (if 120 < length s then [8230] else [])))
   \<and> (dict_get d (lit ''intro'') = JStr s \<and> s \<noteq> [] \<and> 92 \<notin> set s \<longrightarrow>
      fst (print_item L (JDict d)) ! 3 =
        lit ''      Intro: '' @ take 120 s @ (if 120 < length s then [8230] else []))"
proof -
  have r: "92 \<notin> set s \<Longrightarrow> py_replace [92, 110] [32] (take 120 s) = take 120 s"
    using replace_from_absent [of "[92, 110]" "take 120 s" "[32]"]
    by (auto simp add: py_replace_def dest: in_set_takeD)
  have a: "92 \<notin> set s \<longrightarrow>
      intro_preview (JStr s) = Inr (take 120 s @ (if 120 < length s then [8230] else []))"
    using r by (simp add: intro_preview_def)
  have b: "dict_get d (lit ''intro'') = JStr s \<and> s \<noteq> [] \<and> 92 \<notin> set s \<longrightarrow>
      fst (print_item L (JDict d)) ! 3 =
        lit ''      Intro: '' @ take 120 s @ (if 120 < length s then [8230] else [])"
    using a by (simp add: print_item_def Let_def andthen_def says_def py_or_def numeral_3_eq_3)
  from a b show ?thesis by blast
qed

theorem intro_preview_keeps_newline:
  "intro_preview (JStr (lit ''line one\<newline>line two'')) = Inr (lit ''line one\<newline>line two'')
   \<and> intro_preview (JStr [97, 92, 110, 98]) = Inr [97, 32, 98]
   \<and> (\<forall>L. fst (print_list L (normalize_collection
                (JList [JDict [(lit ''intro'', JStr (lit ''line one\<newline>line two''))]]))) ! 5 =
            lit ''      Intro: line one\<newline>line two'')"
proof -
  have nb: "92 \<notin> set (lit ''line one\<newline>line two'')"
    by (simp add: lit_def)
  have len: "length (lit ''line one\<newline>line two'') = 17"
    by (simp add: lit_def)
  have bs: "intro_preview (JStr [97, 92, 110, 98]) = Inr [97, 32, 98]"
    by (simp add: intro_preview_def py_replace_def)
  have pv: "intro_preview (JStr (lit ''line one\<newline>line two'')) =
      Inr (lit ''line one\<newline>line two'')"
    using intro_preview_no_backslash [of "lit ''line one\<newline>line two''"] nb len
    by simp
  have "fst (print_list L (normalize_collection
                (JList [JDict [(lit ''intro'', JStr (lit ''line one\<newline>line two''))]]))) ! 5 =
            lit ''      Intro: line one\<newline>line two''" for L
    by (simp add: print_list_def normalize_collection_def sort_desc_by_created_def sort_key_def
        print_item_def intro_preview_def py_replace_def andthen_def says_def Let_def dict_defs)
  with pv bs show ?thesis by blast
qed



text \<open>
  C10: the message view prints attachment lines only when \<^verbatim>\<open>hasAttachments\<close> is
  truthy. When it is falsy or missing, the body is followed by the closing blank line
  only, whatever the attachments are; when it is truthy and the attachments are a
  sequence, the body is followed by one line for each entry that is a mapping, in order,
  and the entries that are not mappings are skipped.
\<close>

theorem print_message_attachments:
  assumes "format_address_list L (py_or (dict_get d (lit ''to'')) (dict_get d (lit ''recipients''))) = Inr tos"
    and "snd (message_body L d) = None"
  shows "(\<not> truthy (dict_get d (lit ''hasAttachments'')) \<longrightarrow>
            message_attachments L d = says [[]] \<and>
            fst (print_message L (JDict d)) =
              fst (message_header L d) @ fst (message_body L d) @ [[]])
       \<and> (truthy (dict_get d (lit ''hasAttachments'')) \<and>
          dict_get d (lit ''attachments'') = JList as \<longrightarrow>
            message_attachments L d = says (attachment_lines L as @ [[]]) \<and>
            fst (print_message L (JDict d)) =
              fst (message_header L d) @ fst (message_body L d) @ attachment_lines L as @ [[]])
       \<and> attachment_lines L as = attachment_lines L (filter is_dict as)
       \<and> attachment_lines L (map JDict ds) = map (attachment_line L) ds"
proof -
  have hdr: "snd (message_header L d) = None"
    using assms(1) by (rule message_header_ok)
  have a: "\<not> truthy (dict_get d (lit ''hasAttachments'')) \<longrightarrow>
      message_attachments L d = says [[]]"
    by (simp add: message_attachments_def andthen_def says_def)
  have b: "truthy (dict_get d (lit ''hasAttachments'')) \<and>
          dict_get d (lit ''attachments'') = JList as \<longrightarrow>
      message_attachments L d = says (attachment_lines L as @ [[]])"
    by (cases as) (simp_all add: message_attachments_def andthen_def says_def py_or_def)
  show ?thesis
    using a b hdr assms(2) attachment_lines_filter [of L as] attachment_lines_dicts [of L ds]
    by (simp add: print_message_ok fst_says)
qed

theorem print_message_attachments_witness:
  "\<forall>L. fst (print_message L (JDict ex_message)) =
          fst (message_header L ex_message) @ fst (message_body L ex_message) @ [[]]
     \<and> attachment_lines L [JInt 1, JDict [(lit ''id'', JStr (lit ''a1''))], JStr (lit ''x'')] =
         attachment_lines L [JDict [(lit ''id'', JStr (lit ''a1''))]]"
proof
  fix L
  have hdr: "format_address_list L
      (py_or (dict_get ex_message (lit ''to'')) (dict_get ex_message (lit ''recipients''))) = Inr []"
    by (simp add: ex_message_def dict_defs format_address_list_def)
  have nt: "\<not> has_text ex_message"
    by (simp add: has_text_def ex_message_def dict_defs py_strip_def py_isspace_def)
  have body: "snd (message_body L ex_message) = None"
    using nt ex_message_html [of L] by (simp add: message_body_html says_def)
  have na: "\<not> truthy (dict_get ex_message (lit ''hasAttachments''))"
    by (simp add: ex_message_def dict_defs)
  show "fst (print_message L (JDict ex_message)) =
          fst (message_header L ex_message) @ fst (message_body L ex_message) @ [[]]
     \<and> attachment_lines L [JInt 1, JDict [(lit ''id'', JStr (lit ''a1''))], JStr (lit ''x'')] =
         attachment_lines L [JDict [(lit ''id'', JStr (lit ''a1''))]]"
    using print_message_attachments [OF hdr body, of "[JInt 1, JDict [(lit ''id'', JStr (lit ''a1''))], JStr (lit ''x'')]"] na
    by simp
qed

end
